theory Spec2Isabelle
  imports Complex_Main
begin

section \<open>The numeric backend: element values and their arithmetic\<close>

text \<open>
  The source computes with floating-point numbers (Python floats and the elements of
  torch tensors). An element is modelled by its exact real value when it is finite, and
  by the IEEE 754 special values otherwise. \<open>Fin 0\<close> is the positive zero \<open>+0.0\<close>,
  \<open>NZero\<close> is the negative zero \<open>-0.0\<close>. Rounding, overflow and underflow of finite
  results are outside this model: a finite result is the exact real result.
\<close>

datatype fnum = Fin real | NZero | PInf | NInf | NaN

fun fsign :: "fnum \<Rightarrow> bool" where
  "fsign (Fin x) = (x < 0)"
| "fsign NZero = True"
| "fsign PInf = False"
| "fsign NInf = True"
| "fsign NaN = False"

fun is_zero :: "fnum \<Rightarrow> bool" where
  "is_zero (Fin x) = (x = 0)"
| "is_zero NZero = True"
| "is_zero _ = False"

fun is_inf :: "fnum \<Rightarrow> bool" where
  "is_inf PInf = True"
| "is_inf NInf = True"
| "is_inf _ = False"


text \<open>The real number a finite element denotes; \<open>None\<close> for an infinity or a NaN.\<close>

fun fin_val :: "fnum \<Rightarrow> real option" where
  "fin_val (Fin x) = Some x"
| "fin_val NZero = Some 0"
| "fin_val _ = None"

fun rval :: "fnum \<Rightarrow> real" where
  "rval (Fin x) = x"
| "rval _ = 0"

definition mk_zero :: "bool \<Rightarrow> fnum" where
  "mk_zero s = (if s then NZero else Fin 0)"

definition mk_inf :: "bool \<Rightarrow> fnum" where
  "mk_inf s = (if s then NInf else PInf)"

text \<open>A finite product or quotient: an exact zero carries the sign of the operation.\<close>

definition mk_fin :: "bool \<Rightarrow> real \<Rightarrow> fnum" where
  "mk_fin s x = (if x = 0 then mk_zero s else Fin x)"

fun fneg :: "fnum \<Rightarrow> fnum" where
  "fneg (Fin x) = (if x = 0 then NZero else Fin (- x))"
| "fneg NZero = Fin 0"
| "fneg PInf = NInf"
| "fneg NInf = PInf"
| "fneg NaN = NaN"

definition fadd :: "fnum \<Rightarrow> fnum \<Rightarrow> fnum" where
  "fadd a b =
     (if a = NaN \<or> b = NaN then NaN
      else if is_inf a then (if is_inf b \<and> a \<noteq> b then NaN else a)
      else if is_inf b then b
      else if is_zero a \<and> is_zero b then mk_zero (fsign a \<and> fsign b)
      else Fin (rval a + rval b))"

definition fsub :: "fnum \<Rightarrow> fnum \<Rightarrow> fnum" where
  "fsub a b = fadd a (fneg b)"

definition fmul :: "fnum \<Rightarrow> fnum \<Rightarrow> fnum" where
  "fmul a b =
     (if a = NaN \<or> b = NaN then NaN
      else if is_inf a \<or> is_inf b then
        (if is_zero a \<or> is_zero b then NaN else mk_inf (fsign a \<noteq> fsign b))
      else mk_fin (fsign a \<noteq> fsign b) (rval a * rval b))"

definition fdiv :: "fnum \<Rightarrow> fnum \<Rightarrow> fnum" where
  "fdiv a b =
     (if a = NaN \<or> b = NaN then NaN
      else if is_inf a then (if is_inf b then NaN else mk_inf (fsign a \<noteq> fsign b))
      else if is_inf b then mk_zero (fsign a \<noteq> fsign b)
      else if is_zero b then (if is_zero a then NaN else mk_inf (fsign a \<noteq> fsign b))
      else mk_fin (fsign a \<noteq> fsign b) (rval a / rval b))"

text \<open>A power with a literal non-negative integer exponent (\<open>**2\<close>, \<open>**4\<close>).\<close>

fun fpow :: "fnum \<Rightarrow> nat \<Rightarrow> fnum" where
  "fpow a 0 = Fin 1"
| "fpow a (Suc n) = fmul a (fpow a n)"


section \<open>Tensors\<close>

text \<open>
  A tensor is its shape and its elements in row-major order, as a contiguous torch
  tensor stores them. A 0-dimensional tensor has shape \<open>[]\<close> and one element.
\<close>

record tensor =
  shape :: "nat list"
  data :: "fnum list"

definition numel :: "nat list \<Rightarrow> nat" where
  "numel s = prod_list s"

definition wf_tensor :: "tensor \<Rightarrow> bool" where
  "wf_tensor t = (length (data t) = numel (shape t))"

text \<open>All multi-indices of a shape, in row-major order.\<close>

fun indices :: "nat list \<Rightarrow> nat list list" where
  "indices [] = [[]]"
| "indices (n # s) = concat (map (\<lambda>i. map ((#) i) (indices s)) [0..<n])"

definition valid_index :: "nat list \<Rightarrow> nat list \<Rightarrow> bool" where
  "valid_index s idx = list_all2 (<) idx s"

definition lookup :: "tensor \<Rightarrow> nat list \<Rightarrow> fnum option" where
  "lookup t idx = map_of (zip (indices (shape t)) (data t)) idx"

definition tabulate :: "nat list \<Rightarrow> (nat list \<Rightarrow> fnum) \<Rightarrow> tensor" where
  "tabulate s f = \<lparr>shape = s, data = map f (indices s)\<rparr>"

definition scalar :: "fnum \<Rightarrow> tensor" where
  "scalar v = \<lparr>shape = [], data = [v]\<rparr>"

subsection \<open>Broadcasting\<close>

text \<open>
  Shapes are aligned at their last dimension; two aligned dimensions are compatible when
  they are equal or one of them is 1, and a missing dimension counts as 1. Incompatible
  shapes make the backend raise.
\<close>

fun bc_rev :: "nat list \<Rightarrow> nat list \<Rightarrow> nat list option" where
  "bc_rev [] ys = Some ys"
| "bc_rev (x # xs) [] = Some (x # xs)"
| "bc_rev (x # xs) (y # ys) =
     (if x = y \<or> y = 1 then map_option ((#) x) (bc_rev xs ys)
      else if x = 1 then map_option ((#) y) (bc_rev xs ys)
      else None)"

definition broadcast_shapes :: "nat list \<Rightarrow> nat list \<Rightarrow> nat list option" where
  "broadcast_shapes a b = map_option rev (bc_rev (rev a) (rev b))"

text \<open>
  The index of the element of a tensor of shape \<open>s\<close> that is read at index \<open>idx\<close> of a
  broadcast result: the trailing dimensions of \<open>idx\<close>, with 0 where \<open>s\<close> has size 1.
\<close>

fun proj_rev :: "nat list \<Rightarrow> nat list \<Rightarrow> nat list" where
  "proj_rev [] is = []"
| "proj_rev (d # ds) [] = []"
| "proj_rev (d # ds) (i # is) = (if d = 1 then 0 else i) # proj_rev ds is"

definition proj :: "nat list \<Rightarrow> nat list \<Rightarrow> nat list" where
  "proj s idx = rev (proj_rev (rev s) (rev idx))"

text \<open>
  The element read at a broadcast index. \<open>lookup\<close> fails only on a record that is not a
  tensor or on an index outside the broadcast shape, which the operations never produce.
\<close>

definition bat :: "tensor \<Rightarrow> nat list \<Rightarrow> fnum" where
  "bat t idx = (case lookup t (proj (shape t) idx) of Some v \<Rightarrow> v | None \<Rightarrow> NaN)"

datatype error = ZeroDivisionError | RuntimeError

definition binop :: "(fnum \<Rightarrow> fnum \<Rightarrow> fnum) \<Rightarrow> tensor \<Rightarrow> tensor \<Rightarrow> error + tensor" where
  "binop f a b =
     (case broadcast_shapes (shape a) (shape b) of
        None \<Rightarrow> Inl RuntimeError
      | Some s \<Rightarrow> Inr (tabulate s (\<lambda>idx. f (bat a idx) (bat b idx))))"

definition tmap :: "(fnum \<Rightarrow> fnum) \<Rightarrow> tensor \<Rightarrow> tensor" where
  "tmap f t = \<lparr>shape = shape t, data = map f (data t)\<rparr>"

definition zeros_like :: "tensor \<Rightarrow> tensor" where
  "zeros_like t = \<lparr>shape = shape t, data = replicate (numel (shape t)) (Fin 0)\<rparr>"

subsection \<open>Arguments that are Python numbers or tensors\<close>

text \<open>
  \<open>M_param\<close>, \<open>C_param\<close> and \<open>G_param\<close> are Python numbers or tensors. Arithmetic between
  two Python numbers is Python's own (division by zero raises \<open>ZeroDivisionError\<close>);
  as soon as one operand is a tensor the other is taken as a 0-dimensional tensor and
  the backend computes elementwise, with broadcasting and without raising on a zero
  divisor.
\<close>

datatype param = PyNum fnum | Tens tensor

fun as_tensor :: "param \<Rightarrow> tensor" where
  "as_tensor (PyNum v) = scalar v"
| "as_tensor (Tens t) = t"

fun p_lift :: "error + tensor \<Rightarrow> error + param" where
  "p_lift (Inl e) = Inl e"
| "p_lift (Inr t) = Inr (Tens t)"

fun p_mul :: "param \<Rightarrow> param \<Rightarrow> error + param" where
  "p_mul (PyNum x) (PyNum y) = Inr (PyNum (fmul x y))"
| "p_mul a b = p_lift (binop fmul (as_tensor a) (as_tensor b))"

fun p_div :: "param \<Rightarrow> param \<Rightarrow> error + param" where
  "p_div (PyNum x) (PyNum y) =
     (if is_zero y then Inl ZeroDivisionError else Inr (PyNum (fdiv x y)))"
| "p_div a b = p_lift (binop fdiv (as_tensor a) (as_tensor b))"

fun p_pow :: "param \<Rightarrow> nat \<Rightarrow> param" where
  "p_pow (PyNum x) n = PyNum (fpow x n)"
| "p_pow (Tens t) n = Tens (tmap (\<lambda>v. fpow v n) t)"

definition ebind :: "error + 'a \<Rightarrow> ('a \<Rightarrow> error + 'b) \<Rightarrow> error + 'b" where
  "ebind m f = (case m of Inl e \<Rightarrow> Inl e | Inr x \<Rightarrow> f x)"


section \<open>The class \<open>EinsteinFinalTorsional\<close>\<close>

typedecl sweep_descr

text \<open>
  The instance state: \<open>name\<close> is what the base class keeps of the string passed to its
  constructor, \<open>alpha\<close> is the 0-dimensional tensor made by \<open>torch.as_tensor\<close> (the
  device and the floating-point type it is placed on are global settings that do not
  appear in this model of exact values); \<open>sweep\<close> and \<open>cacheable\<close> are the class
  attributes.
\<close>

record EinsteinFinalTorsional =
  name :: string
  alpha :: tensor
  sweep :: "sweep_descr option"
  cacheable :: bool

subsection \<open>The format specification \<open>+.2f\<close>\<close>

text \<open>
  Python renders the exact value of the number, correctly rounded to two decimals with
  ties to even, after an explicit sign taken from the sign bit.
\<close>

definition round_half_even :: "real \<Rightarrow> nat" where
  "round_half_even y =
     (let f = nat \<lfloor>y\<rfloor>; d = y - real f
      in if d < 1/2 then f else if 1/2 < d then f + 1
         else if even f then f else f + 1)"

definition digit_char :: "nat \<Rightarrow> char" where
  "digit_char d = char_of (48 + d)"

function digits :: "nat \<Rightarrow> string" where
  "digits n = (if n < 10 then [digit_char n] else digits (n div 10) @ [digit_char (n mod 10)])"
  by pat_completeness auto
termination
  by (relation "measure id") auto

declare digits.simps [simp del]

definition fixed2 :: "nat \<Rightarrow> string" where
  "fixed2 n = digits (n div 100) @ ''.'' @ [digit_char (n div 10 mod 10), digit_char (n mod 10)]"

fun fmt_plus_2f :: "fnum \<Rightarrow> string" where
  "fmt_plus_2f (Fin x) = (if x < 0 then ''-'' else ''+'') @ fixed2 (round_half_even (\<bar>x\<bar> * 100))"
| "fmt_plus_2f NZero = ''-0.00''"
| "fmt_plus_2f PInf = ''+inf''"
| "fmt_plus_2f NInf = ''-inf''"
| "fmt_plus_2f NaN = ''+nan''"

text \<open>The Greek letter alpha of the name, as the two bytes of its UTF-8 encoding.\<close>

definition alpha_utf8 :: string where
  "alpha_utf8 = [CHR 0xCE, CHR 0xB1]"

text \<open>
  Modelled from the spec: the base class \<open>EinsteinFinalBase\<close> is not in the source; its
  constructor stores the string it is given as the instance's \<open>name\<close>.
\<close>

definition EinsteinFinalBase_init :: "string \<Rightarrow> string" where
  "EinsteinFinalBase_init nm = nm"

definition init :: "fnum \<Rightarrow> EinsteinFinalTorsional" where
  "init a =
     \<lparr>name = EinsteinFinalBase_init
        (''Einstein Final (Torsional, '' @ alpha_utf8 @ ''='' @ fmt_plus_2f a @ '')''),
      alpha = scalar a,
      sweep = None,
      cacheable = True\<rparr>"

subsection \<open>\<open>get_metric\<close>\<close>

text \<open>
  \<open>EPSILON\<close> is a module constant defined outside the source file; it is a parameter of
  the model. \<open>r\<close> is a tensor (\<open>torch.zeros_like\<close> accepts nothing else).
\<close>

definition get_metric ::
  "real \<Rightarrow> EinsteinFinalTorsional \<Rightarrow> tensor \<Rightarrow> param \<Rightarrow> param \<Rightarrow> param
     \<Rightarrow> error + (tensor \<times> tensor \<times> tensor \<times> tensor)" where
  "get_metric EPSILON self r M_param C_param G_param =
     ebind (p_mul (PyNum (Fin 2)) G_param) (\<lambda>g2.
     ebind (p_mul g2 M_param) (\<lambda>gm.
     ebind (p_div gm (p_pow C_param 2)) (\<lambda>rs.
     ebind (binop fdiv (as_tensor rs) r) (\<lambda>x.
     ebind (binop fsub (scalar (Fin 1)) x) (\<lambda>t1.
     ebind (binop fdiv (as_tensor rs) r) (\<lambda>x'.
     ebind (binop fmul (alpha self) (tmap (\<lambda>v. fpow v 4) x')) (\<lambda>t2.
     ebind (binop fadd t1 t2) (\<lambda>m.
     ebind (binop fadd m (scalar (Fin EPSILON))) (\<lambda>me.
     ebind (binop fdiv (scalar (Fin 1)) me) (\<lambda>c1.
     Inr (tmap fneg m, c1, tmap (\<lambda>v. fpow v 2) r, zeros_like r)))))))))))"

text \<open>
  The call as a step on the instance: the body of \<open>get_metric\<close> assigns to no attribute
  of \<open>self\<close>, so the instance after the call is the instance before it.
\<close>

definition call_get_metric ::
  "real \<Rightarrow> EinsteinFinalTorsional \<Rightarrow> tensor \<Rightarrow> param \<Rightarrow> param \<Rightarrow> param
     \<Rightarrow> EinsteinFinalTorsional \<times> (error + (tensor \<times> tensor \<times> tensor \<times> tensor))" where
  "call_get_metric EPSILON self r M_param C_param G_param =
     (self, get_metric EPSILON self r M_param C_param G_param)"


section \<open>Notions used to state the properties\<close>

text \<open>
  An index \<open>idx\<close> of a broadcast result addresses an element of a tensor of shape \<open>s\<close>
  when \<open>s\<close> has no more dimensions than \<open>idx\<close> and the projected index lies in \<open>s\<close>.
\<close>

definition compat_rev :: "nat list \<Rightarrow> nat list \<Rightarrow> bool" where
  "compat_rev ds js = (length ds \<le> length js \<and> list_all2 (<) (proj_rev ds js) ds)"

definition compat :: "nat list \<Rightarrow> nat list \<Rightarrow> bool" where
  "compat s idx = compat_rev (rev s) (rev idx)"

fun pshape :: "param \<Rightarrow> nat list" where
  "pshape (PyNum v) = []"
| "pshape (Tens t) = shape t"

text \<open>The value an argument contributes at an index of the result.\<close>

fun pat :: "param \<Rightarrow> nat list \<Rightarrow> fnum" where
  "pat (PyNum v) idx = v"
| "pat (Tens t) idx = bat t idx"

fun is_pynum :: "param \<Rightarrow> bool" where
  "is_pynum (PyNum v) = True"
| "is_pynum (Tens t) = False"

text \<open>The shape on which the four operands \<open>G_param\<close>, \<open>M_param\<close>, \<open>C_param\<close> and \<open>r\<close> meet.\<close>

definition out_shape :: "tensor \<Rightarrow> param \<Rightarrow> param \<Rightarrow> param \<Rightarrow> nat list option" where
  "out_shape r M_param C_param G_param =
     Option.bind (broadcast_shapes (pshape G_param) (pshape M_param)) (\<lambda>s1.
     Option.bind (broadcast_shapes s1 (pshape C_param)) (\<lambda>s2.
     broadcast_shapes s2 (shape r)))"

text \<open>
  The formulas of the source for one element, in the arithmetic of the backend:
  \<open>rs = 2 * G * M / C**2\<close> and \<open>m = 1 - rs/r + alpha * (rs/r)**4\<close>.
\<close>

definition rs_elem :: "fnum \<Rightarrow> fnum \<Rightarrow> fnum \<Rightarrow> fnum" where
  "rs_elem M C G = fdiv (fmul (fmul (Fin 2) G) M) (fpow C 2)"

definition m_elem :: "fnum \<Rightarrow> fnum \<Rightarrow> fnum \<Rightarrow> fnum" where
  "m_elem a rs r = fadd (fsub (Fin 1) (fdiv rs r)) (fmul a (fpow (fdiv rs r) 4))"


text \<open>
  The same formulas as the specification writes them, over the real numbers:
  \<open>rs = 2*G_param*M_param/C_param^2\<close> and \<open>m = 1 - rs/r + alpha*(rs/r)^4\<close>.
\<close>

definition rs_spec :: "real \<Rightarrow> real \<Rightarrow> real \<Rightarrow> real" where
  "rs_spec M C G = 2 * G * M / C ^ 2"

definition m_spec :: "real \<Rightarrow> real \<Rightarrow> real \<Rightarrow> real" where
  "m_spec a rs r = 1 - rs / r + a * (rs / r) ^ 4"

text \<open>
  The specification's rendering of a number with explicit sign and exactly two decimal
  digits: a sign (\<open>-\<close> for a negative number, \<open>+\<close> for a positive one), a non-empty
  string of digits, a point and two digits, which read as a decimal number lie within
  half a hundredth of the magnitude of the number.
\<close>

definition is_digit :: "char \<Rightarrow> bool" where
  "is_digit c = (48 \<le> (of_char c :: nat) \<and> (of_char c :: nat) \<le> 57)"

definition dec_val :: "string \<Rightarrow> nat" where
  "dec_val s = foldl (\<lambda>n c. 10 * n + ((of_char c :: nat) - 48)) 0 s"

definition is_signed_2dec :: "real \<Rightarrow> string \<Rightarrow> bool" where
  "is_signed_2dec x s =
     (\<exists>sg ip d1 d2.
        s = sg # ip @ ''.'' @ [d1, d2] \<and>
        (sg = CHR ''+'' \<or> sg = CHR ''-'') \<and>
        (0 < x \<longrightarrow> sg = CHR ''+'') \<and> (x < 0 \<longrightarrow> sg = CHR ''-'') \<and>
        ip \<noteq> [] \<and> list_all is_digit ip \<and> is_digit d1 \<and> is_digit d2 \<and>
        \<bar>real (dec_val (ip @ [d1, d2])) / 100 - \<bar>x\<bar>\<bar> \<le> 1 / 200)"


text \<open>
  The lifetime of an instance after its construction: any sequence of calls of
  \<open>get_metric\<close>, each on the instance the previous call left.
\<close>

fun calls ::
  "real \<Rightarrow> EinsteinFinalTorsional \<Rightarrow> (tensor \<times> param \<times> param \<times> param) list
     \<Rightarrow> EinsteinFinalTorsional" where
  "calls EPSILON self [] = self"
| "calls EPSILON self ((r, M_param, C_param, G_param) # rest) =
     calls EPSILON (fst (call_get_metric EPSILON self r M_param C_param G_param)) rest"


section \<open>Properties of the element arithmetic\<close>

lemma fin_val_cases: "fin_val a = Some x \<Longrightarrow> a = Fin x \<or> (a = NZero \<and> x = 0)"
  by (cases a) auto

lemma fin_val_fneg: "fin_val a = Some x \<Longrightarrow> fin_val (fneg a) = Some (- x)"
  by (cases a) auto

lemma fin_val_fadd: "fin_val a = Some x \<Longrightarrow> fin_val b = Some y \<Longrightarrow> fin_val (fadd a b) = Some (x + y)"
  by (cases a; cases b) (auto simp: fadd_def mk_zero_def)

lemma fin_val_fsub: "fin_val a = Some x \<Longrightarrow> fin_val b = Some y \<Longrightarrow> fin_val (fsub a b) = Some (x - y)"
  using fin_val_fadd [OF _ fin_val_fneg, of a x b y] by (simp add: fsub_def)

lemma fin_val_fmul: "fin_val a = Some x \<Longrightarrow> fin_val b = Some y \<Longrightarrow> fin_val (fmul a b) = Some (x * y)"
  by (cases a; cases b) (auto simp: fmul_def mk_fin_def mk_zero_def)

lemma fin_val_fdiv: "fin_val a = Some x \<Longrightarrow> fin_val b = Some y \<Longrightarrow> y \<noteq> 0 \<Longrightarrow> fin_val (fdiv a b) = Some (x / y)"
  by (cases a; cases b) (auto simp: fdiv_def mk_fin_def mk_zero_def)

lemma fin_val_fpow: "fin_val a = Some x \<Longrightarrow> fin_val (fpow a n) = Some (x ^ n)"
  by (induction n) (auto simp: fin_val_fmul)

lemma fpow_NaN: "0 < n \<Longrightarrow> fpow NaN n = NaN"
  by (cases n) (auto simp: fmul_def)


text \<open>
  The backend evaluates a Python number divided by a tensor as the reciprocal of the
  tensor times the number. In this arithmetic, which does not round, that is the
  quotient, also on zeros, infinities and NaN.
\<close>

lemma fdiv_by_reciprocal: "fmul (fdiv (Fin 1) b) a = fdiv a b"
proof (cases b)
  case (Fin y)
  show ?thesis
  proof (cases "y = 0")
    case True
    then show ?thesis using Fin
      by (cases a) (auto simp: fdiv_def fmul_def mk_inf_def mk_zero_def mk_fin_def)
  next
    case False
    then show ?thesis using Fin
      by (cases a) (auto simp: fdiv_def fmul_def mk_inf_def mk_zero_def mk_fin_def
          zero_less_divide_iff divide_less_0_iff)
  qed
next
  case NZero
  then show ?thesis
    by (cases a) (auto simp: fdiv_def fmul_def mk_inf_def mk_zero_def mk_fin_def)
next
  case PInf
  then show ?thesis
    by (cases a) (auto simp: fdiv_def fmul_def mk_inf_def mk_zero_def mk_fin_def)
next
  case NInf
  then show ?thesis
    by (cases a) (auto simp: fdiv_def fmul_def mk_inf_def mk_zero_def mk_fin_def)
next
  case NaN
  then show ?thesis by (simp add: fdiv_def fmul_def)
qed


section \<open>Properties of tensors and broadcasting\<close>

lemma set_indices: "set (indices s) = {idx. list_all2 (<) idx s}"
proof (induction s)
  case Nil
  then show ?case by auto
next
  case (Cons n s)
  show ?case
  proof (rule set_eqI)
    fix idx
    show "idx \<in> set (indices (n # s)) \<longleftrightarrow> idx \<in> {idx. list_all2 (<) idx (n # s)}"
      using Cons by (cases idx) (auto simp: list_all2_Cons2)
  qed
qed

lemma length_indices: "length (indices s) = numel s"
  by (induction s) (auto simp: numel_def length_concat comp_def sum_list_triv)

lemma lookup_tabulate:
  "lookup (tabulate s f) idx = (if valid_index s idx then Some (f idx) else None)"
  by (simp add: lookup_def tabulate_def map_of_zip_map set_indices valid_index_def)

lemma shape_tabulate: "shape (tabulate s f) = s"
  by (simp add: tabulate_def)

lemma lookup_tmap: "lookup (tmap f t) idx = map_option f (lookup t idx)"
  by (simp add: lookup_def tmap_def zip_map2 map_of_map)

lemma shape_tmap: "shape (tmap f t) = shape t"
  by (simp add: tmap_def)

lemma lookup_scalar: "lookup (scalar v) [] = Some v"
  by (simp add: lookup_def scalar_def)

lemma shape_scalar: "shape (scalar v) = []"
  by (simp add: scalar_def)

lemma proj_Nil: "proj [] idx = []"
  by (simp add: proj_def)

lemma bat_scalar: "bat (scalar v) idx = v"
  by (simp add: bat_def shape_scalar proj_Nil lookup_scalar)

lemma bat_tmap: "f NaN = NaN \<Longrightarrow> bat (tmap f t) idx = f (bat t idx)"
  by (simp add: bat_def lookup_tmap shape_tmap split: option.splits)

lemma proj_rev_idem: "proj_rev ds (proj_rev ds js) = proj_rev ds js"
  by (induction ds js rule: proj_rev.induct) auto

lemma proj_rev_valid: "list_all2 (<) js ds \<Longrightarrow> proj_rev ds js = js"
  by (induction ds js rule: proj_rev.induct) auto

lemma compat_rev_valid: "list_all2 (<) js ds \<Longrightarrow> compat_rev ds js"
  by (simp add: compat_rev_def proj_rev_valid list_all2_lengthD)

lemma compat_rev_Nil: "compat_rev [] js"
  by (simp add: compat_rev_def)

lemma compat_rev_Cons:
  "compat_rev (d # ds) js \<longleftrightarrow> (\<exists>j js'. js = j # js' \<and> (if d = 1 then True else j < d) \<and> compat_rev ds js')"
  by (cases js) (auto simp: compat_rev_def)

lemma bc_rev_compat:
  "bc_rev a b = Some c \<Longrightarrow> compat_rev c js \<Longrightarrow>
     compat_rev a js \<and> compat_rev b js \<and>
     proj_rev a (proj_rev c js) = proj_rev a js \<and>
     proj_rev b (proj_rev c js) = proj_rev b js"
proof (induction a b arbitrary: c js rule: bc_rev.induct)
  case (1 ys)
  then show ?case by (simp add: compat_rev_Nil proj_rev_idem)
next
  case (2 x xs)
  then show ?case by (auto simp: compat_rev_Nil proj_rev_idem)
next
  case (3 x xs y ys)
  from "3.prems"(1) obtain z c' where c: "c = z # c'" and bc: "bc_rev xs ys = Some c'"
    and z: "(x = y \<or> y = 1) \<and> z = x \<or> x = 1 \<and> z = y"
    by (auto split: if_splits)
  from "3.prems"(2) c obtain j js' where js: "js = j # js'" and cj: "compat_rev c' js'"
    and jz: "z \<noteq> 1 \<longrightarrow> j < z"
    by (auto simp: compat_rev_Cons split: if_splits)
  have ih: "compat_rev xs js' \<and> compat_rev ys js' \<and>
     proj_rev xs (proj_rev c' js') = proj_rev xs js' \<and>
     proj_rev ys (proj_rev c' js') = proj_rev ys js'"
    using z bc cj "3.IH"(1)[of c' js'] "3.IH"(2)[of c' js'] by (cases "x = y \<or> y = 1") auto
  show ?case using ih z jz by (auto simp: js c compat_rev_Cons)
qed

lemma valid_index_rev: "valid_index s idx \<longleftrightarrow> list_all2 (<) (rev idx) (rev s)"
  by (simp add: valid_index_def)

lemma valid_compat: "valid_index s idx \<Longrightarrow> compat s idx"
  by (simp add: compat_def valid_index_rev compat_rev_valid)

lemma compat_proj_valid: "compat s idx \<Longrightarrow> valid_index s (proj s idx)"
  by (simp add: compat_def compat_rev_def valid_index_rev proj_def)

lemma broadcast_compat:
  assumes "broadcast_shapes a b = Some c" "compat c idx"
  shows "compat a idx" "compat b idx"
    "proj a (proj c idx) = proj a idx" "proj b (proj c idx) = proj b idx"
proof -
  from assms(1) obtain c' where c': "bc_rev (rev a) (rev b) = Some c'" and c: "c = rev c'"
    by (auto simp: broadcast_shapes_def)
  have "compat_rev c' (rev idx)" using assms(2) c by (simp add: compat_def)
  from bc_rev_compat [OF c' this]
  show "compat a idx" "compat b idx"
    "proj a (proj c idx) = proj a idx" "proj b (proj c idx) = proj b idx"
    by (simp_all add: compat_def proj_def c)
qed

lemma shape_binop: "binop f a b = Inr c \<Longrightarrow> broadcast_shapes (shape a) (shape b) = Some (shape c)"
  by (auto simp: binop_def shape_tabulate split: option.splits)

lemma bat_binop:
  assumes "binop f a b = Inr c" "compat (shape c) idx"
  shows "bat c idx = f (bat a idx) (bat b idx)"
proof -
  from assms(1) obtain s where s: "broadcast_shapes (shape a) (shape b) = Some s"
    and c: "c = tabulate s (\<lambda>idx. f (bat a idx) (bat b idx))"
    by (auto simp: binop_def split: option.splits)
  have cs: "compat s idx" using assms(2) c by (simp add: shape_tabulate)
  have v: "valid_index s (proj s idx)" using cs by (rule compat_proj_valid)
  have "bat c idx = f (bat a (proj s idx)) (bat b (proj s idx))"
    using v by (simp add: bat_def c shape_tabulate lookup_tabulate)
  also have "bat a (proj s idx) = bat a idx"
    using broadcast_compat(3) [OF s cs] by (simp add: bat_def)
  also have "bat b (proj s idx) = bat b idx"
    using broadcast_compat(4) [OF s cs] by (simp add: bat_def)
  finally show ?thesis .
qed

lemma bc_rev_Nil2: "bc_rev xs [] = Some xs"
  by (cases xs) auto

lemma bc_rev_same: "bc_rev xs xs = Some xs"
  by (induction xs) auto

lemma broadcast_Nil1: "broadcast_shapes [] s = Some s"
  by (simp add: broadcast_shapes_def)

lemma broadcast_Nil2: "broadcast_shapes s [] = Some s"
  by (simp add: broadcast_shapes_def bc_rev_Nil2)

lemma broadcast_same: "broadcast_shapes s s = Some s"
  by (simp add: broadcast_shapes_def bc_rev_same)

lemma binop_Inr: "broadcast_shapes (shape a) (shape b) = Some s \<Longrightarrow> \<exists>c. binop f a b = Inr c \<and> shape c = s"
  by (simp add: binop_def shape_tabulate)

lemma shape_zeros_like: "shape (zeros_like r) = shape r"
  by (simp add: zeros_like_def)

lemma wf_tabulate: "wf_tensor (tabulate s f)"
  by (simp add: wf_tensor_def tabulate_def length_indices)

lemma wf_binop: "binop f a b = Inr c \<Longrightarrow> wf_tensor c"
  by (auto simp: binop_def wf_tabulate split: option.splits)

lemma wf_tmap: "wf_tensor (tmap f t) = wf_tensor t"
  by (simp add: wf_tensor_def tmap_def)

lemma wf_zeros_like: "wf_tensor (zeros_like t)"
  by (simp add: wf_tensor_def zeros_like_def)

lemma lookup_zeros_like:
  "lookup (zeros_like t) idx = (if valid_index (shape t) idx then Some (Fin 0) else None)"
proof -
  have "replicate (numel (shape t)) (Fin 0) = map (\<lambda>_. Fin 0) (indices (shape t))"
    by (simp add: map_replicate_const length_indices)
  then show ?thesis
    by (simp add: lookup_def zeros_like_def map_of_zip_map set_indices valid_index_def)
qed

lemma bat_zeros_like: "compat (shape t) idx \<Longrightarrow> bat (zeros_like t) idx = Fin 0"
  by (simp add: bat_def shape_zeros_like lookup_zeros_like compat_proj_valid)


section \<open>What \<open>get_metric\<close> computes, element by element\<close>

lemma ebind_InrE:
  assumes "ebind m f = Inr y"
  obtains x where "m = Inr x" "f x = Inr y"
  using assms by (cases m) (auto simp: ebind_def)

lemma shape_as_tensor: "shape (as_tensor p) = pshape p"
  by (cases p) (simp_all add: shape_scalar)

lemma bat_as_tensor: "bat (as_tensor p) idx = pat p idx"
  by (cases p) (simp_all add: bat_scalar)

lemma p_lift_Inr: "p_lift m = Inr c \<longleftrightarrow> (\<exists>t. m = Inr t \<and> c = Tens t)"
  by (cases m) auto

lemma p_binop_tensor:
  assumes "p_lift (binop f (as_tensor a) (as_tensor b)) = Inr c"
  shows "broadcast_shapes (pshape a) (pshape b) = Some (pshape c)"
    and "\<not> is_pynum c"
    and "compat (pshape c) idx \<Longrightarrow> pat c idx = f (pat a idx) (pat b idx)"
proof -
  from assms obtain t where t: "binop f (as_tensor a) (as_tensor b) = Inr t" and c: "c = Tens t"
    by (auto simp: p_lift_Inr)
  show "broadcast_shapes (pshape a) (pshape b) = Some (pshape c)"
    using shape_binop [OF t] by (simp add: c shape_as_tensor)
  show "\<not> is_pynum c" by (simp add: c)
  show "pat c idx = f (pat a idx) (pat b idx)" if "compat (pshape c) idx"
    using bat_binop [OF t, of idx] that by (simp add: c bat_as_tensor)
qed

lemma p_mul_Inr:
  assumes "p_mul a b = Inr c"
  shows "broadcast_shapes (pshape a) (pshape b) = Some (pshape c)"
    and "is_pynum c \<longleftrightarrow> is_pynum a \<and> is_pynum b"
    and "compat (pshape c) idx \<Longrightarrow> pat c idx = fmul (pat a idx) (pat b idx)"
proof -
  show "broadcast_shapes (pshape a) (pshape b) = Some (pshape c)"
    using assms p_binop_tensor(1) [of fmul a b c]
    by (cases a; cases b) (auto simp: broadcast_Nil1)
  show "is_pynum c \<longleftrightarrow> is_pynum a \<and> is_pynum b"
    using assms p_binop_tensor(2) [of fmul a b c]
    by (cases a; cases b) auto
  show "pat c idx = fmul (pat a idx) (pat b idx)" if "compat (pshape c) idx"
    using assms that p_binop_tensor(3) [of fmul a b c idx]
    by (cases a; cases b) auto
qed

lemma p_div_Inr:
  assumes "p_div a b = Inr c"
  shows "broadcast_shapes (pshape a) (pshape b) = Some (pshape c)"
    and "compat (pshape c) idx \<Longrightarrow> pat c idx = fdiv (pat a idx) (pat b idx)"
proof -
  show "broadcast_shapes (pshape a) (pshape b) = Some (pshape c)"
    using assms p_binop_tensor(1) [of fdiv a b c]
    by (cases a; cases b) (auto simp: broadcast_Nil1 split: if_splits)
  show "pat c idx = fdiv (pat a idx) (pat b idx)" if "compat (pshape c) idx"
    using assms that p_binop_tensor(3) [of fdiv a b c idx]
    by (cases a; cases b) (auto split: if_splits)
qed

lemma pshape_p_pow: "pshape (p_pow c n) = pshape c"
  by (cases c) (simp_all add: shape_tmap)

lemma is_pynum_p_pow: "is_pynum (p_pow c n) = is_pynum c"
  by (cases c) simp_all

lemma pat_p_pow: "0 < n \<Longrightarrow> pat (p_pow c n) idx = fpow (pat c idx) n"
  by (cases c) (simp_all add: bat_tmap fpow_NaN)

lemma get_metric_elems:
  assumes gm: "get_metric eps self r M C G = Inr (c0, c1, c2, c3)"
    and al: "alpha self = scalar a"
  shows "out_shape r M C G = Some (shape c0)"
    and "shape c1 = shape c0"
    and "c2 = tmap (\<lambda>v. fpow v 2) r"
    and "c3 = zeros_like r"
    and "compat (shape c0) idx \<Longrightarrow>
           bat c0 idx = fneg (m_elem a (rs_elem (pat M idx) (pat C idx) (pat G idx)) (bat r idx))"
    and "compat (shape c0) idx \<Longrightarrow>
           bat c1 idx = fdiv (Fin 1)
             (fadd (m_elem a (rs_elem (pat M idx) (pat C idx) (pat G idx)) (bat r idx)) (Fin eps))"
    and "wf_tensor c0" and "wf_tensor c1"
proof -
  from gm obtain g2 gm' rs x t1 x' t2 m me c1' where
    g2: "p_mul (PyNum (Fin 2)) G = Inr g2" and
    gm': "p_mul g2 M = Inr gm'" and
    rs: "p_div gm' (p_pow C 2) = Inr rs" and
    x: "binop fdiv (as_tensor rs) r = Inr x" and
    t1: "binop fsub (scalar (Fin 1)) x = Inr t1" and
    x': "binop fdiv (as_tensor rs) r = Inr x'" and
    t2: "binop fmul (alpha self) (tmap (\<lambda>v. fpow v 4) x') = Inr t2" and
    m: "binop fadd t1 t2 = Inr m" and
    me: "binop fadd m (scalar (Fin eps)) = Inr me" and
    c1': "binop fdiv (scalar (Fin 1)) me = Inr c1'" and
    res: "(tmap fneg m, c1', tmap (\<lambda>v. fpow v 2) r, zeros_like r) = (c0, c1, c2, c3)"
    unfolding get_metric_def by (elim ebind_InrE) simp
  have xx: "x' = x" using x x' by simp
  let ?S = "shape x"
  have s_g2: "pshape g2 = pshape G"
    using p_mul_Inr(1) [OF g2] by (simp add: broadcast_Nil1)
  have s_gm: "broadcast_shapes (pshape G) (pshape M) = Some (pshape gm')"
    using p_mul_Inr(1) [OF gm'] by (simp add: s_g2)
  have s_rs: "broadcast_shapes (pshape gm') (pshape C) = Some (pshape rs)"
    using p_div_Inr(1) [OF rs] by (simp add: pshape_p_pow)
  have s_x: "broadcast_shapes (pshape rs) (shape r) = Some ?S"
    using shape_binop [OF x] by (simp add: shape_as_tensor)
  have s_t1: "shape t1 = ?S"
    using shape_binop [OF t1] by (simp add: shape_scalar broadcast_Nil1)
  have s_t2: "shape t2 = ?S"
    using shape_binop [OF t2] by (simp add: al xx shape_scalar shape_tmap broadcast_Nil1)
  have s_m: "shape m = ?S"
    using shape_binop [OF m] by (simp add: s_t1 s_t2 broadcast_same)
  have s_me: "shape me = ?S"
    using shape_binop [OF me] by (simp add: s_m shape_scalar broadcast_Nil2)
  have s_c1: "shape c1' = ?S"
    using shape_binop [OF c1'] by (simp add: s_me shape_scalar broadcast_Nil1)
  have s_c0: "shape c0 = ?S" using res s_m by (auto simp: shape_tmap)
  show "out_shape r M C G = Some (shape c0)"
    by (simp add: out_shape_def s_gm s_rs s_x s_c0)
  show "shape c1 = shape c0" using res s_c1 s_c0 by auto
  show "c2 = tmap (\<lambda>v. fpow v 2) r" using res by auto
  show "c3 = zeros_like r" using res by auto
  show "wf_tensor c0" using res wf_binop [OF m] by (auto simp: wf_tmap)
  show "wf_tensor c1" using res wf_binop [OF c1'] by auto
  have m_at: "bat m idx = m_elem a (rs_elem (pat M idx) (pat C idx) (pat G idx)) (bat r idx)"
    if cS: "compat ?S idx"
  proof -
    have c_rs: "compat (pshape rs) idx" and c_r: "compat (shape r) idx"
      using broadcast_compat(1,2) [OF s_x cS] by simp_all
    have c_gm: "compat (pshape gm') idx" and c_C: "compat (pshape C) idx"
      using broadcast_compat(1,2) [OF s_rs c_rs] by simp_all
    have c_G: "compat (pshape G) idx" and c_M: "compat (pshape M) idx"
      using broadcast_compat(1,2) [OF s_gm c_gm] by simp_all
    have v_g2: "pat g2 idx = fmul (Fin 2) (pat G idx)"
      using p_mul_Inr(3) [OF g2, of idx] c_G by (simp add: s_g2)
    have v_gm: "pat gm' idx = fmul (fmul (Fin 2) (pat G idx)) (pat M idx)"
      using p_mul_Inr(3) [OF gm' c_gm] by (simp add: v_g2)
    have v_rs: "pat rs idx = rs_elem (pat M idx) (pat C idx) (pat G idx)"
      using p_div_Inr(2) [OF rs c_rs] by (simp add: v_gm pat_p_pow rs_elem_def)
    have v_x: "bat x idx = fdiv (pat rs idx) (bat r idx)"
      using bat_binop [OF x cS] by (simp add: bat_as_tensor)
    have v_t1: "bat t1 idx = fsub (Fin 1) (bat x idx)"
      using bat_binop [OF t1, of idx] cS by (simp add: s_t1 bat_scalar)
    have v_t2: "bat t2 idx = fmul a (fpow (bat x idx) 4)"
      using bat_binop [OF t2, of idx] cS by (simp add: s_t2 al xx bat_scalar bat_tmap fpow_NaN)
    have "bat m idx = fadd (bat t1 idx) (bat t2 idx)"
      using bat_binop [OF m, of idx] cS by (simp add: s_m)
    then show ?thesis by (simp add: v_t1 v_t2 v_x v_rs m_elem_def)
  qed
  show "bat c0 idx = fneg (m_elem a (rs_elem (pat M idx) (pat C idx) (pat G idx)) (bat r idx))"
    if "compat (shape c0) idx"
  proof -
    have cS: "compat ?S idx" using that by (simp add: s_c0)
    have "c0 = tmap fneg m" using res by auto
    then show ?thesis using m_at [OF cS] by (simp add: bat_tmap)
  qed
  show "bat c1 idx = fdiv (Fin 1)
      (fadd (m_elem a (rs_elem (pat M idx) (pat C idx) (pat G idx)) (bat r idx)) (Fin eps))"
    if "compat (shape c0) idx"
  proof -
    have cS: "compat ?S idx" using that by (simp add: s_c0)
    have c1: "c1 = c1'" using res by auto
    have "bat me idx = fadd (bat m idx) (Fin eps)"
      using bat_binop [OF me, of idx] cS by (simp add: s_me bat_scalar)
    moreover have "bat c1' idx = fdiv (Fin 1) (bat me idx)"
      using bat_binop [OF c1', of idx] cS by (simp add: s_c1 bat_scalar)
    ultimately show ?thesis using m_at [OF cS] by (simp add: c1)
  qed
qed

section \<open>When \<open>get_metric\<close> returns\<close>

lemma is_zero_fpow2: "is_zero (fpow v 2) = is_zero v"
  by (cases v) (auto simp: eval_nat_numeral fmul_def mk_fin_def mk_zero_def mk_inf_def)

lemma p_mul_ex:
  assumes "broadcast_shapes (pshape a) (pshape b) = Some s"
  shows "\<exists>c. p_mul a b = Inr c \<and> pshape c = s"
proof (cases "is_pynum a \<and> is_pynum b")
  case True
  then show ?thesis using assms by (cases a; cases b) (auto simp: broadcast_Nil1)
next
  case False
  from binop_Inr [of "as_tensor a" "as_tensor b" s fmul] assms
  obtain c where "binop fmul (as_tensor a) (as_tensor b) = Inr c" "shape c = s"
    by (auto simp: shape_as_tensor)
  then show ?thesis using False by (cases a; cases b) auto
qed

lemma p_div_ex:
  assumes "broadcast_shapes (pshape a) (pshape b) = Some s"
    and "\<not> (is_pynum a \<and> is_pynum b \<and> is_zero (pat b []))"
  shows "\<exists>c. p_div a b = Inr c \<and> pshape c = s"
proof (cases "is_pynum a \<and> is_pynum b")
  case True
  then show ?thesis using assms by (cases a; cases b) (auto simp: broadcast_Nil1)
next
  case False
  from binop_Inr [of "as_tensor a" "as_tensor b" s fdiv] assms
  obtain c where "binop fdiv (as_tensor a) (as_tensor b) = Inr c" "shape c = s"
    by (auto simp: shape_as_tensor)
  then show ?thesis using False by (cases a; cases b) auto
qed

lemma binop_ex:
  assumes "broadcast_shapes (shape a) (shape b) = Some s"
  obtains c where "binop f a b = Inr c" "shape c = s"
  using binop_Inr [OF assms, of f] by auto

lemma get_metric_returns:
  assumes os: "out_shape r M C G = Some S"
    and al: "alpha self = scalar a"
    and nz: "\<not> (is_pynum G \<and> is_pynum M \<and> is_pynum C \<and> is_zero (pat C []))"
  shows "\<exists>c0 c1 c2 c3. get_metric eps self r M C G = Inr (c0, c1, c2, c3)"
proof -
  from os obtain s1 s2 where
    s1: "broadcast_shapes (pshape G) (pshape M) = Some s1" and
    s2: "broadcast_shapes s1 (pshape C) = Some s2" and
    s3: "broadcast_shapes s2 (shape r) = Some S"
    by (auto simp: out_shape_def Option.bind_eq_Some_conv)
  obtain g2 where g2: "p_mul (PyNum (Fin 2)) G = Inr g2" and sg2: "pshape g2 = pshape G"
    using p_mul_ex [of "PyNum (Fin 2)" G "pshape G"] by (auto simp: broadcast_Nil1)
  have pg2: "is_pynum g2 = is_pynum G" using p_mul_Inr(2) [OF g2] by simp
  obtain gm where gm: "p_mul g2 M = Inr gm" and sgm: "pshape gm = s1"
    using p_mul_ex [of g2 M s1] s1 by (auto simp: sg2)
  have pgm: "is_pynum gm = (is_pynum G \<and> is_pynum M)" using p_mul_Inr(2) [OF gm] pg2 by simp
  have "\<not> (is_pynum gm \<and> is_pynum (p_pow C 2) \<and> is_zero (pat (p_pow C 2) []))"
    using nz by (cases C) (auto simp: pgm is_zero_fpow2)
  then obtain rs where rs: "p_div gm (p_pow C 2) = Inr rs" and srs: "pshape rs = s2"
    using p_div_ex [of gm "p_pow C 2" s2] s2 by (auto simp: sgm pshape_p_pow)
  obtain x where x: "binop fdiv (as_tensor rs) r = Inr x" and sx: "shape x = S"
    using binop_ex [of "as_tensor rs" r S fdiv] s3 by (auto simp: shape_as_tensor srs)
  obtain t1 where t1: "binop fsub (scalar (Fin 1)) x = Inr t1" and st1: "shape t1 = S"
    using binop_ex [of "scalar (Fin 1)" x S fsub] by (auto simp: shape_scalar sx broadcast_Nil1)
  obtain t2 where t2: "binop fmul (alpha self) (tmap (\<lambda>v. fpow v 4) x) = Inr t2" and st2: "shape t2 = S"
    using binop_ex [of "alpha self" "tmap (\<lambda>v. fpow v 4) x" S fmul]
    by (auto simp: al shape_scalar shape_tmap sx broadcast_Nil1)
  obtain m where m: "binop fadd t1 t2 = Inr m" and sm: "shape m = S"
    using binop_ex [of t1 t2 S fadd] by (auto simp: st1 st2 broadcast_same)
  obtain me where me: "binop fadd m (scalar (Fin eps)) = Inr me" and sme: "shape me = S"
    using binop_ex [of m "scalar (Fin eps)" S fadd] by (auto simp: sm shape_scalar broadcast_Nil2)
  obtain c1 where c1: "binop fdiv (scalar (Fin 1)) me = Inr c1"
    using binop_ex [of "scalar (Fin 1)" me S fdiv] by (auto simp: sme shape_scalar broadcast_Nil1)
  show ?thesis
    by (simp add: get_metric_def ebind_def g2 gm rs x t1 t2 m me c1)
qed




section \<open>The instance across calls\<close>

lemma alpha_init: "alpha (init a) = scalar a"
  by (simp add: init_def)

lemma calls_id: "calls EPSILON self args = self"
  by (induction args arbitrary: self) (auto simp: call_get_metric_def)

lemma get_metric_c23:
  assumes "get_metric eps self r M C G = Inr (c0, c1, c2, c3)"
  shows "c2 = tmap (\<lambda>v. fpow v 2) r" and "c3 = zeros_like r"
  using assms unfolding get_metric_def by (elim ebind_InrE; simp)+

text \<open>
  Claim C5. \<open>get_metric\<close> is deterministic: a second call with the same arguments, on
  the instance as the first call left it, returns what the first call returned (the
  same outputs, or the same error).
\<close>

theorem get_metric_deterministic:
  "snd (call_get_metric EPSILON (fst (call_get_metric EPSILON self r M_param C_param G_param))
          r M_param C_param G_param)
   = snd (call_get_metric EPSILON self r M_param C_param G_param)"
  by (simp add: call_get_metric_def)

text \<open>
  Claim C6. A call of \<open>get_metric\<close> leaves the instance as it was, whatever the
  arguments and whether it returns or raises; after any sequence of calls the fields
  \<open>name\<close> and \<open>alpha\<close> and the class attributes \<open>sweep\<close> and \<open>cacheable\<close> are what
  they were, so that \<open>alpha\<close> stays the tensor made at construction.
\<close>

theorem get_metric_frame:
  "fst (call_get_metric EPSILON self r M_param C_param G_param) = self \<and>
   name (calls EPSILON self args) = name self \<and>
   alpha (calls EPSILON self args) = alpha self \<and>
   sweep (calls EPSILON self args) = sweep self \<and>
   cacheable (calls EPSILON self args) = cacheable self \<and>
   alpha (calls EPSILON (init a) args) = scalar a \<and>
   sweep (calls EPSILON (init a) args) = None \<and>
   cacheable (calls EPSILON (init a) args) = True"
  by (simp add: calls_id call_get_metric_def init_def)

text \<open>
  Claim C10. The third and the fourth output depend on \<open>r\<close> only: two calls that
  return, on the same \<open>r\<close> and with any two instances (any two \<open>alpha\<close>) and any two
  choices of \<open>M_param\<close>, \<open>C_param\<close>, \<open>G_param\<close>, return the same third output, the
  elementwise square of \<open>r\<close>, and the same fourth output, the zeros shaped like \<open>r\<close>.
\<close>

theorem get_metric_angular_noninterference:
  assumes "get_metric EPSILON self r M_param C_param G_param = Inr (c0, c1, c2, c3)"
    and "get_metric EPSILON self' r M_param' C_param' G_param' = Inr (d0, d1, d2, d3)"
  shows "c2 = d2 \<and> c3 = d3 \<and> c2 = tmap (\<lambda>v. fpow v 2) r \<and> c3 = zeros_like r"
  using get_metric_c23 [OF assms(1)] get_metric_c23 [OF assms(2)] by simp

theorem get_metric_angular_noninterference_witness:
  "get_metric (1/10^10) (init (Fin (1/2))) \<lparr>shape = [2], data = [Fin 4, Fin 2]\<rparr>
       (PyNum (Fin 1)) (PyNum (Fin 1)) (PyNum (Fin 1))
     = Inr (\<lparr>shape = [2], data = [Fin (- (17 / 32)), Fin (- (1 / 2))]\<rparr>,
            \<lparr>shape = [2], data = [Fin (10000000000 / 5312500001), Fin (10000000000 / 5000000001)]\<rparr>,
            \<lparr>shape = [2], data = [Fin 16, Fin 4]\<rparr>,
            \<lparr>shape = [2], data = [Fin 0, Fin 0]\<rparr>) \<and>
   get_metric (1/10^10) (init (Fin 0)) \<lparr>shape = [2], data = [Fin 4, Fin 2]\<rparr>
       (PyNum (Fin 3)) (PyNum (Fin 2)) (Tens \<lparr>shape = [1], data = [Fin 1]\<rparr>)
     = Inr (\<lparr>shape = [2], data = [Fin (- (5 / 8)), Fin (- (1 / 4))]\<rparr>,
            \<lparr>shape = [2], data = [Fin (10000000000 / 6250000001), Fin (10000000000 / 2500000001)]\<rparr>,
            \<lparr>shape = [2], data = [Fin 16, Fin 4]\<rparr>,
            \<lparr>shape = [2], data = [Fin 0, Fin 0]\<rparr>) \<and>
   \<lparr>shape = [2], data = [Fin 16, Fin 4]\<rparr>
     = tmap (\<lambda>v. fpow v 2) \<lparr>shape = [2], data = [Fin 4, Fin 2]\<rparr> \<and>
   \<lparr>shape = [2], data = [Fin 0, Fin 0]\<rparr> = zeros_like \<lparr>shape = [2], data = [Fin 4, Fin 2]\<rparr>"
proof -
  have a: "get_metric (1/10^10) (init (Fin (1/2))) \<lparr>shape = [2], data = [Fin 4, Fin 2]\<rparr>
       (PyNum (Fin 1)) (PyNum (Fin 1)) (PyNum (Fin 1))
     = Inr (\<lparr>shape = [2], data = [Fin (- (17 / 32)), Fin (- (1 / 2))]\<rparr>,
            \<lparr>shape = [2], data = [Fin (10000000000 / 5312500001), Fin (10000000000 / 5000000001)]\<rparr>,
            \<lparr>shape = [2], data = [Fin 16, Fin 4]\<rparr>,
            \<lparr>shape = [2], data = [Fin 0, Fin 0]\<rparr>)"
    by code_simp
  have b: "get_metric (1/10^10) (init (Fin 0)) \<lparr>shape = [2], data = [Fin 4, Fin 2]\<rparr>
       (PyNum (Fin 3)) (PyNum (Fin 2)) (Tens \<lparr>shape = [1], data = [Fin 1]\<rparr>)
     = Inr (\<lparr>shape = [2], data = [Fin (- (5 / 8)), Fin (- (1 / 4))]\<rparr>,
            \<lparr>shape = [2], data = [Fin (10000000000 / 6250000001), Fin (10000000000 / 2500000001)]\<rparr>,
            \<lparr>shape = [2], data = [Fin 16, Fin 4]\<rparr>,
            \<lparr>shape = [2], data = [Fin 0, Fin 0]\<rparr>)"
    by code_simp
  show ?thesis using a b get_metric_angular_noninterference [OF a b] by simp
qed


section \<open>The metric on finite inputs\<close>

lemma rs_elem_fin:
  assumes "fin_val M = Some mm" "fin_val C = Some c" "c \<noteq> 0" "fin_val G = Some g"
  shows "fin_val (rs_elem M C G) = Some (rs_spec mm c g)"
proof -
  have "fin_val (fmul (fmul (Fin 2) G) M) = Some (2 * g * mm)"
    using assms by (simp add: fin_val_fmul)
  moreover have "fin_val (fpow C 2) = Some (c ^ 2)"
    using assms by (simp add: fin_val_fpow)
  ultimately show ?thesis
    using assms(3) by (simp add: rs_elem_def rs_spec_def fin_val_fdiv)
qed

lemma m_elem_fin:
  assumes "fin_val a = Some av" "fin_val rs = Some rv" "fin_val r = Some x" "x \<noteq> 0"
  shows "fin_val (m_elem a rs r) = Some (m_spec av rv x)"
proof -
  have q: "fin_val (fdiv rs r) = Some (rv / x)"
    using assms by (simp add: fin_val_fdiv)
  have "fin_val (fsub (Fin 1) (fdiv rs r)) = Some (1 - rv / x)"
    using q by (simp add: fin_val_fsub)
  moreover have "fin_val (fmul a (fpow (fdiv rs r) 4)) = Some (av * (rv / x) ^ 4)"
    using q assms(1) by (simp add: fin_val_fmul fin_val_fpow)
  ultimately show ?thesis
    by (simp add: m_elem_def m_spec_def fin_val_fadd)
qed

lemma fadd_Fin: "fin_val v = Some m \<Longrightarrow> fadd v (Fin e) = Fin (m + e)"
  by (cases v) (auto simp: fadd_def mk_zero_def)

lemma fdiv_one_Fin: "fdiv (Fin 1) (Fin y) = (if y = 0 then PInf else Fin (1 / y))"
  by (auto simp: fdiv_def mk_inf_def mk_fin_def)

lemma get_metric_finite:
  assumes os: "out_shape r M_param C_param G_param = Some S"
    and idx: "valid_index S idx"
    and a: "fin_val a = Some av"
    and r: "fin_val (bat r idx) = Some x" "x \<noteq> 0"
    and M: "fin_val (pat M_param idx) = Some M"
    and C: "fin_val (pat C_param idx) = Some C" "C \<noteq> 0"
    and G: "fin_val (pat G_param idx) = Some G"
  shows "\<exists>c0 c1 c2 c3.
      get_metric EPSILON (init a) r M_param C_param G_param = Inr (c0, c1, c2, c3) \<and>
      shape c0 = S \<and> shape c1 = S \<and>
      fin_val (bat c0 idx) = Some (- m_spec av (rs_spec M C G) x) \<and>
      bat c1 idx = (if m_spec av (rs_spec M C G) x + EPSILON = 0 then PInf
                    else Fin (1 / (m_spec av (rs_spec M C G) x + EPSILON))) \<and>
      c2 = tmap (\<lambda>v. fpow v 2) r \<and> fin_val (bat c2 idx) = Some (x ^ 2) \<and>
      c3 = zeros_like r \<and> bat c3 idx = Fin 0"
proof -
  have nz: "\<not> (is_pynum G_param \<and> is_pynum M_param \<and> is_pynum C_param \<and> is_zero (pat C_param []))"
    using C by (cases C_param) (auto dest: fin_val_cases)
  from get_metric_returns [OF os alpha_init nz, of EPSILON a]
  obtain c0 c1 c2 c3 where
    gm: "get_metric EPSILON (init a) r M_param C_param G_param = Inr (c0, c1, c2, c3)"
    by blast
  note el = get_metric_elems [OF gm alpha_init]
  have s0: "shape c0 = S" using el(1) os by simp
  have cs: "compat (shape c0) idx" using idx s0 by (simp add: valid_compat)
  let ?m = "m_elem a (rs_elem (pat M_param idx) (pat C_param idx) (pat G_param idx)) (bat r idx)"
  have mv: "fin_val ?m = Some (m_spec av (rs_spec M C G) x)"
    using m_elem_fin [OF a rs_elem_fin [OF M C G] r] .
  have v0: "fin_val (bat c0 idx) = Some (- m_spec av (rs_spec M C G) x)"
    using el(5) [OF cs] mv by (simp add: fin_val_fneg)
  have v1: "bat c1 idx = (if m_spec av (rs_spec M C G) x + EPSILON = 0 then PInf
                    else Fin (1 / (m_spec av (rs_spec M C G) x + EPSILON)))"
    using el(6) [OF cs] by (simp only: fadd_Fin [OF mv] fdiv_one_Fin)
  have v2: "fin_val (bat c2 idx) = Some (x ^ 2)"
    using r(1) by (simp add: el(3) bat_tmap fpow_NaN fin_val_fpow)
  have cr: "compat (shape r) idx"
  proof -
    from os obtain s2 where "broadcast_shapes s2 (shape r) = Some S"
      by (auto simp: out_shape_def Option.bind_eq_Some_conv)
    from broadcast_compat(2) [OF this] idx show ?thesis by (simp add: valid_compat)
  qed
  have v3: "bat c3 idx = Fin 0"
    using cr by (simp add: el(4) bat_zeros_like)
  show ?thesis
    using gm s0 el(2) v0 v1 el(3) v2 el(4) v3 by auto
qed





text \<open>
  Claim C8. On the same inputs, where \<open>m + EPSILON\<close> is not zero, the values \<open>u\<close> of the
  first output and \<open>v\<close> of the second satisfy \<open>u + 1/v = EPSILON\<close>, that is
  \<open>u = EPSILON - 1/v\<close>.
\<close>

theorem get_metric_reciprocal_relation:
  assumes "out_shape r M_param C_param G_param = Some S"
    and "valid_index S idx"
    and "fin_val a = Some av"
    and "fin_val (bat r idx) = Some x" and "x \<noteq> 0"
    and "fin_val (pat M_param idx) = Some M"
    and "fin_val (pat C_param idx) = Some C" and "C \<noteq> 0"
    and "fin_val (pat G_param idx) = Some G"
    and "m_spec av (rs_spec M C G) x + EPSILON \<noteq> 0"
  shows "\<exists>c0 c1 c2 c3 u v.
      get_metric EPSILON (init a) r M_param C_param G_param = Inr (c0, c1, c2, c3) \<and>
      fin_val (bat c0 idx) = Some u \<and> fin_val (bat c1 idx) = Some v \<and>
      u + 1 / v = EPSILON \<and> u = EPSILON - 1 / v"
  using get_metric_finite [OF assms(1-9), of EPSILON] assms(10) by auto

theorem get_metric_reciprocal_relation_witness:
  "out_shape \<lparr>shape = [1], data = [Fin 4]\<rparr> (PyNum (Fin 1)) (PyNum (Fin 1)) (PyNum (Fin 1)) = Some [1] \<and>
   valid_index [1] [0] \<and>
   fin_val (Fin (1/2)) = Some (1/2) \<and>
   fin_val (bat \<lparr>shape = [1], data = [Fin 4]\<rparr> [0]) = Some 4 \<and>
   (4::real) \<noteq> 0 \<and>
   fin_val (pat (PyNum (Fin 1)) [0]) = Some 1 \<and>
   (1::real) \<noteq> 0 \<and>
   m_spec (1/2) (rs_spec 1 1 1) 4 + 1/10^10 \<noteq> 0 \<and>
   (\<exists>c0 c1 c2 c3 u v.
      get_metric (1/10^10) (init (Fin (1/2))) \<lparr>shape = [1], data = [Fin 4]\<rparr>
        (PyNum (Fin 1)) (PyNum (Fin 1)) (PyNum (Fin 1)) = Inr (c0, c1, c2, c3) \<and>
      fin_val (bat c0 [0]) = Some u \<and> fin_val (bat c1 [0]) = Some v \<and>
      u + 1 / v = 1/10^10 \<and> u = 1/10^10 - 1 / v)"
proof -
  have h1: "out_shape \<lparr>shape = [1], data = [Fin 4]\<rparr> (PyNum (Fin 1)) (PyNum (Fin 1)) (PyNum (Fin 1)) = Some [1]"
    by code_simp
  have h2: "valid_index [1] [0]" by code_simp
  have h3: "fin_val (Fin (1/2)) = Some (1/2)" by simp
  have h4: "fin_val (bat \<lparr>shape = [1], data = [Fin 4]\<rparr> [0]) = Some 4" by code_simp
  have h5: "(4::real) \<noteq> 0" by simp
  have h6: "fin_val (pat (PyNum (Fin 1)) [0]) = Some 1" by simp
  have h7: "(1::real) \<noteq> 0" by simp
  have h8: "m_spec (1/2) (rs_spec 1 1 1) 4 + 1/10^10 \<noteq> 0"
    by (simp add: m_spec_def rs_spec_def power_divide)
  from get_metric_reciprocal_relation [OF h1 h2 h3 h4 h5 h6 h6 h7 h6 h8]
  show ?thesis using h1 h2 h4 h8 by simp
qed


section \<open>Dependence on the parameters through \<open>rs\<close>\<close>


lemma ebind_Inl: "ebind (Inl e) f = Inl e"
  by (simp add: ebind_def)















section \<open>The shapes of the outputs\<close>

text \<open>
  Claim C4, as amended. When \<open>get_metric\<close> returns, the third and the fourth output have
  the shape of \<open>r\<close>; the first and the second have one shape, the one on which \<open>r\<close> and
  the three parameters broadcast together. That shape is the shape of \<open>r\<close> when each
  parameter is a scalar or has the shape of \<open>r\<close>. Each output holds as many elements
  as its shape says (the third if \<open>r\<close> does).
\<close>

theorem get_metric_shapes:
  assumes "get_metric EPSILON (init a) r M_param C_param G_param = Inr (c0, c1, c2, c3)"
  shows "shape c2 = shape r \<and> shape c3 = shape r \<and> shape c1 = shape c0 \<and>
         wf_tensor c0 \<and> wf_tensor c1 \<and> wf_tensor c2 = wf_tensor r \<and> wf_tensor c3 \<and>
         out_shape r M_param C_param G_param = Some (shape c0) \<and>
         ((pshape M_param = [] \<or> pshape M_param = shape r) \<and>
          (pshape C_param = [] \<or> pshape C_param = shape r) \<and>
          (pshape G_param = [] \<or> pshape G_param = shape r) \<longrightarrow> shape c0 = shape r)"
proof -
  note el = get_metric_elems [OF assms alpha_init]
  have "shape c0 = shape r"
    if "(pshape M_param = [] \<or> pshape M_param = shape r) \<and>
        (pshape C_param = [] \<or> pshape C_param = shape r) \<and>
        (pshape G_param = [] \<or> pshape G_param = shape r)"
    using that el(1)
    by (auto simp: out_shape_def broadcast_Nil1 broadcast_Nil2 broadcast_same)
  then show ?thesis
    using el(1,2,3,4,7,8) by (simp add: shape_tmap shape_zeros_like wf_tmap wf_zeros_like)
qed

theorem get_metric_shapes_witness:
  "get_metric (1/10^10) (init (Fin (1/2))) \<lparr>shape = [2], data = [Fin 4, Fin 2]\<rparr>
       (PyNum (Fin 1)) (PyNum (Fin 1)) (Tens \<lparr>shape = [2], data = [Fin 1, Fin 1]\<rparr>)
     = Inr (\<lparr>shape = [2], data = [Fin (- (17 / 32)), Fin (- (1 / 2))]\<rparr>,
            \<lparr>shape = [2], data = [Fin (10000000000 / 5312500001), Fin (10000000000 / 5000000001)]\<rparr>,
            \<lparr>shape = [2], data = [Fin 16, Fin 4]\<rparr>,
            \<lparr>shape = [2], data = [Fin 0, Fin 0]\<rparr>) \<and>
   pshape (PyNum (Fin 1)) = [] \<and>
   pshape (Tens \<lparr>shape = [2], data = [Fin 1, Fin 1]\<rparr>) = shape \<lparr>shape = [2], data = [Fin 4, Fin 2]\<rparr> \<and>
   out_shape \<lparr>shape = [2], data = [Fin 4, Fin 2]\<rparr>
       (PyNum (Fin 1)) (PyNum (Fin 1)) (Tens \<lparr>shape = [2], data = [Fin 1, Fin 1]\<rparr>) = Some [2] \<and>
   shape \<lparr>shape = [2], data = [Fin (- (17 / 32)), Fin (- (1 / 2))]\<rparr>
     = shape \<lparr>shape = [2], data = [Fin 4, Fin 2]\<rparr>"
proof -
  have a: "get_metric (1/10^10) (init (Fin (1/2))) \<lparr>shape = [2], data = [Fin 4, Fin 2]\<rparr>
       (PyNum (Fin 1)) (PyNum (Fin 1)) (Tens \<lparr>shape = [2], data = [Fin 1, Fin 1]\<rparr>)
     = Inr (\<lparr>shape = [2], data = [Fin (- (17 / 32)), Fin (- (1 / 2))]\<rparr>,
            \<lparr>shape = [2], data = [Fin (10000000000 / 5312500001), Fin (10000000000 / 5000000001)]\<rparr>,
            \<lparr>shape = [2], data = [Fin 16, Fin 4]\<rparr>,
            \<lparr>shape = [2], data = [Fin 0, Fin 0]\<rparr>)"
    by code_simp
  from get_metric_shapes [OF a] show ?thesis using a by simp
qed

text \<open>
  The claim as stated fails for a parameter that broadcasts with \<open>r\<close> to a larger shape:
  with \<open>r\<close> of shape \<open>[1]\<close> and \<open>M_param\<close> of shape \<open>[2]\<close>, the first two outputs have
  shape \<open>[2]\<close>.
\<close>

theorem get_metric_shape_counterexample:
  "get_metric (1/10^10) (init (Fin (1/2))) \<lparr>shape = [1], data = [Fin 4]\<rparr>
       (Tens \<lparr>shape = [2], data = [Fin 1, Fin 2]\<rparr>) (PyNum (Fin 1)) (PyNum (Fin 1))
     = Inr (\<lparr>shape = [2], data = [Fin (- (17 / 32)), Fin (- (1 / 2))]\<rparr>,
            \<lparr>shape = [2], data = [Fin (10000000000 / 5312500001), Fin (10000000000 / 5000000001)]\<rparr>,
            \<lparr>shape = [1], data = [Fin 16]\<rparr>,
            \<lparr>shape = [1], data = [Fin 0]\<rparr>) \<and>
   shape \<lparr>shape = [2], data = [Fin (- (17 / 32)), Fin (- (1 / 2))]\<rparr>
     \<noteq> shape \<lparr>shape = [1], data = [Fin 4]\<rparr>"
  by code_simp

section \<open>Division by zero\<close>










section \<open>The displayed name\<close>

lemma of_char_digit_char: "d < 10 \<Longrightarrow> (of_char (digit_char d) :: nat) = 48 + d"
  by (simp add: digit_char_def)

lemma is_digit_digit_char: "d < 10 \<Longrightarrow> is_digit (digit_char d)"
  by (simp add: is_digit_def of_char_digit_char)

lemma dec_val_snoc: "dec_val (s @ [c]) = 10 * dec_val s + ((of_char c :: nat) - 48)"
  by (simp add: dec_val_def)

lemma digits_nonempty: "digits n \<noteq> []"
  by (subst digits.simps) simp

lemma digits_all_digit: "list_all is_digit (digits n)"
proof (induction n rule: digits.induct)
  case (1 n)
  show ?case
  proof (cases "n < 10")
    case True
    then show ?thesis by (subst digits.simps) (simp add: is_digit_digit_char)
  next
    case False
    then show ?thesis using 1 by (subst digits.simps) (simp add: is_digit_digit_char)
  qed
qed

lemma dec_val_digits: "dec_val (digits n) = n"
proof (induction n rule: digits.induct)
  case (1 n)
  show ?case
  proof (cases "n < 10")
    case True
    then show ?thesis by (subst digits.simps) (simp add: dec_val_def of_char_digit_char)
  next
    case False
    then show ?thesis using 1
      by (subst digits.simps) (simp add: dec_val_snoc of_char_digit_char)
  qed
qed

lemma div_mod_100: "10 * (10 * (n div 100) + n div 10 mod 10) + n mod 10 = (n::nat)"
proof -
  have "n div 100 = n div 10 div 10" by (simp add: div_mult2_eq)
  then have "10 * (n div 100) + n div 10 mod 10 = n div 10" by simp
  then show ?thesis by simp
qed

lemma dec_val_fixed2:
  "dec_val (digits (n div 100) @ [digit_char (n div 10 mod 10), digit_char (n mod 10)]) = n"
proof -
  have "dec_val ((digits (n div 100) @ [digit_char (n div 10 mod 10)]) @ [digit_char (n mod 10)])
      = 10 * (10 * (n div 100) + n div 10 mod 10) + n mod 10"
    by (simp only: dec_val_snoc dec_val_digits) (simp add: of_char_digit_char)
  then show ?thesis using div_mod_100 [of n] by simp
qed

lemma round_half_even_close:
  assumes "0 \<le> y"
  shows "\<bar>real (round_half_even y) - y\<bar> \<le> 1 / 2"
proof -
  define f where "f = nat \<lfloor>y\<rfloor>"
  have f: "real f = of_int \<lfloor>y\<rfloor>" using assms by (simp add: f_def)
  have lo: "real f \<le> y" and hi: "y < real f + 1" unfolding f by linarith+
  have r: "round_half_even y =
      (if y - real f < 1/2 then f else if 1/2 < y - real f then f + 1
       else if even f then f else f + 1)"
    unfolding round_half_even_def f_def Let_def by (rule refl)
  show ?thesis
  proof (cases "y - real f < 1/2")
    case True
    then show ?thesis using lo by (simp add: r)
  next
    case False
    then show ?thesis using hi by (auto simp: r)
  qed
qed

lemma fixed2_signed:
  assumes close: "\<bar>real n / 100 - \<bar>x\<bar>\<bar> \<le> 1 / 200"
    and sg: "sg = CHR ''+'' \<or> sg = CHR ''-''" "0 < x \<longrightarrow> sg = CHR ''+''" "x < 0 \<longrightarrow> sg = CHR ''-''"
  shows "is_signed_2dec x (sg # fixed2 n)"
  unfolding is_signed_2dec_def
proof (intro exI conjI)
  show "sg # fixed2 n = sg # digits (n div 100) @ ''.'' @ [digit_char (n div 10 mod 10), digit_char (n mod 10)]"
    by (simp add: fixed2_def)
  show "sg = CHR ''+'' \<or> sg = CHR ''-''" "0 < x \<longrightarrow> sg = CHR ''+''" "x < 0 \<longrightarrow> sg = CHR ''-''"
    by (rule sg)+
  show "digits (n div 100) \<noteq> []" by (rule digits_nonempty)
  show "list_all is_digit (digits (n div 100))" by (rule digits_all_digit)
  show "is_digit (digit_char (n div 10 mod 10))" by (rule is_digit_digit_char) simp
  show "is_digit (digit_char (n mod 10))" by (rule is_digit_digit_char) simp
  show "\<bar>real (dec_val (digits (n div 100) @ [digit_char (n div 10 mod 10), digit_char (n mod 10)])) / 100
          - \<bar>x\<bar>\<bar> \<le> 1 / 200"
    using close by (simp only: dec_val_fixed2)
qed

lemma fmt_plus_2f_signed:
  assumes "fin_val a = Some x"
  shows "is_signed_2dec x (fmt_plus_2f a)"
proof (cases a)
  case (Fin y)
  then have xy: "y = x" using assms by simp
  let ?n = "round_half_even (\<bar>x\<bar> * 100)"
  have "\<bar>real ?n - \<bar>x\<bar> * 100\<bar> \<le> 1 / 2"
    by (rule round_half_even_close) simp
  then have close: "\<bar>real ?n / 100 - \<bar>x\<bar>\<bar> \<le> 1 / 200" by linarith
  have "is_signed_2dec x ((if x < 0 then CHR ''-'' else CHR ''+'') # fixed2 ?n)"
    by (rule fixed2_signed [OF close]) auto
  then show ?thesis by (cases "x < 0") (simp_all add: Fin xy)
next
  case NZero
  then have x: "x = 0" using assms by simp
  have z: "fixed2 0 = ''0.00''" by code_simp
  have "is_signed_2dec 0 (CHR ''-'' # fixed2 0)"
    by (rule fixed2_signed) simp_all
  then show ?thesis by (simp add: NZero x z)
qed (use assms in simp_all)


text \<open>
  Claim C2. For every finite \<open>alpha\<close>, the name of the instance constructed with it is
  the string \<open>Einstein Final (Torsional, \<close> followed by the letter alpha, \<open>=\<close>, the
  number \<open>alpha\<close> rendered with explicit sign and exactly two decimal digits, and \<open>)\<close>;
  \<open>alpha = 0.0\<close> gives the rendering \<open>+0.00\<close>.
\<close>

theorem init_name:
  assumes "fin_val a = Some x"
  shows "(\<exists>s. name (init a) = ''Einstein Final (Torsional, '' @ alpha_utf8 @ ''='' @ s @ '')'' \<and>
             is_signed_2dec x s) \<and>
         name (init (Fin 0)) = ''Einstein Final (Torsional, '' @ alpha_utf8 @ ''=+0.00)''"
proof
  show "\<exists>s. name (init a) = ''Einstein Final (Torsional, '' @ alpha_utf8 @ ''='' @ s @ '')'' \<and>
             is_signed_2dec x s"
    using fmt_plus_2f_signed [OF assms]
    by (intro exI [of _ "fmt_plus_2f a"]) (simp add: init_def EinsteinFinalBase_init_def)
  show "name (init (Fin 0)) = ''Einstein Final (Torsional, '' @ alpha_utf8 @ ''=+0.00)''"
    by code_simp
qed

theorem init_name_witness:
  "fin_val (Fin (- (1/8))) = Some (- (1/8)) \<and>
   (\<exists>s. name (init (Fin (- (1/8)))) = ''Einstein Final (Torsional, '' @ alpha_utf8 @ ''='' @ s @ '')'' \<and>
        is_signed_2dec (- (1/8)) s) \<and>
   name (init (Fin (- (1/8)))) = ''Einstein Final (Torsional, '' @ alpha_utf8 @ ''=-0.12)'' \<and>
   name (init (Fin 0)) = ''Einstein Final (Torsional, '' @ alpha_utf8 @ ''=+0.00)''"
proof -
  have h: "fin_val (Fin (- (1/8))) = Some (- (1/8))" by simp
  have n: "name (init (Fin (- (1/8)))) = ''Einstein Final (Torsional, '' @ alpha_utf8 @ ''=-0.12)''"
    by code_simp
  from init_name [OF h] show ?thesis using n by simp
qed

end
